theory Spec2Isabelle
  imports Main "HOL-Library.AList"
begin

section \<open>Python values used by \<^verbatim>\<open>pdf_extractor.py\<close>\<close>

text \<open>
  A Python \<^verbatim>\<open>str\<close> is a sequence of Unicode code points and \<^verbatim>\<open>len\<close> counts code
  points, so a string is modelled as a list of code points (natural numbers), not as a
  list of bytes. \<open>lit\<close> turns an ASCII literal of the source into such a list.
\<close>

type_synonym pystr = "nat list"

definition lit :: "string \<Rightarrow> pystr" where
  "lit s = map of_char s"

text \<open>
  \<^verbatim>\<open>str.strip()\<close> without argument removes the characters for which \<^verbatim>\<open>str.isspace\<close>
  holds from both ends: the ASCII white space U+0009..U+000D, U+001C..U+0020, and
  U+0085, U+00A0, U+1680, U+2000..U+200A, U+2028, U+2029, U+202F, U+205F, U+3000.
\<close>

definition isspace :: "nat \<Rightarrow> bool" where
  "isspace c \<longleftrightarrow>
     c \<in> {9, 10, 11, 12, 13, 28, 29, 30, 31, 32, 133, 160, 5760,
          8192, 8193, 8194, 8195, 8196, 8197, 8198, 8199, 8200, 8201, 8202,
          8232, 8233, 8239, 8287, 12288}"

definition lstrip :: "pystr \<Rightarrow> pystr" where
  "lstrip s = dropWhile isspace s"

definition rstrip :: "pystr \<Rightarrow> pystr" where
  "rstrip s = rev (dropWhile isspace (rev s))"

definition strip :: "pystr \<Rightarrow> pystr" where
  "strip s = rstrip (lstrip s)"

text \<open>\<^verbatim>\<open>sep.join(xs)\<close>.\<close>

fun join :: "pystr \<Rightarrow> pystr list \<Rightarrow> pystr" where
  "join sep [] = []"
| "join sep [x] = x"
| "join sep (x # y # ys) = x @ sep @ join sep (y # ys)"

text \<open>\<^verbatim>\<open>str(n)\<close> for a non-negative integer: its decimal digits.\<close>

fun str_nat :: "nat \<Rightarrow> pystr" where
  "str_nat n = (if n < 10 then [48 + n] else str_nat (n div 10) @ [48 + n mod 10])"

declare str_nat.simps [simp del]

text \<open>
  An exception object, as far as the program looks at it: the handlers of the source are
  all \<^verbatim>\<open>except Exception as e\<close> and use only \<^verbatim>\<open>str(e)\<close>. \<open>Exception m\<close> stands for an
  instance of (a subclass of) \<^verbatim>\<open>Exception\<close> with \<^verbatim>\<open>str(e) = m\<close>. A computation that
  may raise has a result of type \<open>pyexn + 'a\<close>, \<open>Inl\<close> being the raise.
\<close>

datatype pyexn = Exception pystr

fun str_exn :: "pyexn \<Rightarrow> pystr" where
  "str_exn (Exception m) = m"

text \<open>
  The dictionary \<^verbatim>\<open>results\<close>: insertion-ordered, so an association list. Assignment to
  a new key appends, assignment to an existing key replaces in place
  (\<^const>\<open>AList.update\<close>); \<^verbatim>\<open>d[k]\<close> raises KeyError on a missing key, \<^verbatim>\<open>d.get(k, v)\<close>
  returns the default.
\<close>

type_synonym pydict = "(pystr \<times> pystr) list"

definition dict_setitem :: "pydict \<Rightarrow> pystr \<Rightarrow> pystr \<Rightarrow> pydict" where
  "dict_setitem d k v = AList.update k v d"

definition dict_getitem :: "pydict \<Rightarrow> pystr \<Rightarrow> pyexn + pystr" where
  "dict_getitem d k =
     (case map_of d k of None \<Rightarrow> Inl (Exception ([39] @ k @ [39])) | Some v \<Rightarrow> Inr v)"

definition dict_get :: "pydict \<Rightarrow> pystr \<Rightarrow> pystr \<Rightarrow> pystr" where
  "dict_get d k dflt = (case map_of d k of None \<Rightarrow> dflt | Some v \<Rightarrow> v)"

definition dict_keys :: "pydict \<Rightarrow> pystr list" where
  "dict_keys d = map fst d"

text \<open>The value handed to \<^verbatim>\<open>json.dumps\<close>; object members keep their order.\<close>

datatype json =
    JString pystr
  | JInt int
  | JBool bool
  | JArray "json list"
  | JObject "(pystr \<times> json) list"

fun json_field :: "pystr \<Rightarrow> json \<Rightarrow> json option" where
  "json_field k (JObject kvs) = map_of kvs k"
| "json_field k (JString s) = None"
| "json_field k (JInt i) = None"
| "json_field k (JBool b) = None"
| "json_field k (JArray xs) = None"

section \<open>The environment: the file system and the three libraries\<close>

text \<open>
  The libraries are opaque; their observable contract is "returns page-level text or
  raises". Opening a document either raises or gives its pages, and each page, when the
  loop of the source reaches it, either raises or gives its value:
  \<^item> \<open>pdfplumber_open p\<close>: \<^verbatim>\<open>pdfplumber.open(p)\<close> and \<^verbatim>\<open>page.extract_text()\<close> for the pages
    of \<^verbatim>\<open>pdf.pages\<close>, which is a string or \<^verbatim>\<open>None\<close>;
  \<^item> \<open>PyPDF2_PdfReader p\<close>: \<^verbatim>\<open>open(p, 'rb')\<close>, \<^verbatim>\<open>PyPDF2.PdfReader(file)\<close> and
    \<^verbatim>\<open>page.extract_text()\<close> for the pages of \<^verbatim>\<open>reader.pages\<close>, a string;
  \<^item> \<open>pikepdf_open p\<close>: \<^verbatim>\<open>pikepdf.open(p)\<close> and \<^verbatim>\<open>'/Contents' in page\<close> for the pages of
    \<^verbatim>\<open>pdf.pages\<close>;
  \<^item> \<open>path_exists p\<close>: \<^verbatim>\<open>Path(p).exists()\<close>, which returns a boolean or raises:
    \<^verbatim>\<open>pathlib\<close> answers \<^verbatim>\<open>False\<close> for the errors ENOENT, ENOTDIR, EBADF and ELOOP of
    \<^verbatim>\<open>stat\<close> and re-raises every other \<^verbatim>\<open>OSError\<close> (ENAMETOOLONG for a name of more
    than 255 characters, EACCES for a directory that may not be searched).

  An \<open>Inl e\<close> in the list of pages is whatever is raised while the loop handles that
  page (a \<^verbatim>\<open>TypeError\<close> of \<^verbatim>\<open>None + "\n\n"\<close> included), and the loop never looks at the pages
  after it; an \<open>Inl e\<close> after the last page is a raise when the document is closed.
  What a library raises is an instance of \<^verbatim>\<open>Exception\<close>; an interrupt from outside
  (\<^verbatim>\<open>KeyboardInterrupt\<close>, \<^verbatim>\<open>SystemExit\<close>) is not a result of a library and is not modelled.
\<close>

record env =
  path_exists :: "pystr \<Rightarrow> pyexn + bool"
  pdfplumber_open :: "pystr \<Rightarrow> pyexn + (pyexn + pystr option) list"
  PyPDF2_PdfReader :: "pystr \<Rightarrow> pyexn + (pyexn + pystr) list"
  pikepdf_open :: "pystr \<Rightarrow> pyexn + (pyexn + bool) list"

section \<open>The three extraction functions\<close>

text \<open>\<^verbatim>\<open>try: body except Exception as e: handler(e)\<close>.\<close>

definition try_except :: "pyexn + 'a \<Rightarrow> (pyexn \<Rightarrow> pyexn + 'a) \<Rightarrow> pyexn + 'a" where
  "try_except body handler = (case body of Inl e \<Rightarrow> handler e | Inr v \<Rightarrow> Inr v)"

text \<open>The loop of \<^verbatim>\<open>extract_with_pyPDF2\<close>: \<^verbatim>\<open>text += page.extract_text() + "\n\n"\<close>.\<close>

fun pyPDF2_pages :: "(pyexn + pystr) list \<Rightarrow> pystr \<Rightarrow> pyexn + pystr" where
  "pyPDF2_pages [] text = Inr text"
| "pyPDF2_pages (Inl e # pages) text = Inl e"
| "pyPDF2_pages (Inr page_text # pages) text =
     pyPDF2_pages pages (text @ page_text @ [10, 10])"

definition extract_with_pyPDF2 :: "env \<Rightarrow> pystr \<Rightarrow> pyexn + pystr" where
  "extract_with_pyPDF2 E pdf_path =
     try_except
       (case PyPDF2_PdfReader E pdf_path of
          Inl e \<Rightarrow> Inl e
        | Inr pages \<Rightarrow>
            (case pyPDF2_pages pages [] of
               Inl e \<Rightarrow> Inl e
             | Inr text \<Rightarrow> Inr (strip text)))
       (\<lambda>e. Inr (lit ''PyPDF2 Error: '' @ str_exn e))"

text \<open>
  The loop of \<^verbatim>\<open>extract_with_pdfplumber\<close>: a page whose text is \<^verbatim>\<open>None\<close> or empty is
  skipped (\<^verbatim>\<open>if page_text:\<close>).
\<close>

fun pdfplumber_pages :: "(pyexn + pystr option) list \<Rightarrow> pystr \<Rightarrow> pyexn + pystr" where
  "pdfplumber_pages [] text = Inr text"
| "pdfplumber_pages (Inl e # pages) text = Inl e"
| "pdfplumber_pages (Inr None # pages) text = pdfplumber_pages pages text"
| "pdfplumber_pages (Inr (Some page_text) # pages) text =
     (if page_text \<noteq> [] then pdfplumber_pages pages (text @ page_text @ [10, 10])
      else pdfplumber_pages pages text)"

definition extract_with_pdfplumber :: "env \<Rightarrow> pystr \<Rightarrow> pyexn + pystr" where
  "extract_with_pdfplumber E pdf_path =
     try_except
       (case pdfplumber_open E pdf_path of
          Inl e \<Rightarrow> Inl e
        | Inr pages \<Rightarrow>
            (case pdfplumber_pages pages [] of
               Inl e \<Rightarrow> Inl e
             | Inr text \<Rightarrow> Inr (strip text)))
       (\<lambda>e. Inr (lit ''PDFPlumber Error: '' @ str_exn e))"

text \<open>
  The loop of \<^verbatim>\<open>extract_with_pikepdf\<close> over \<^verbatim>\<open>range(len(pdf.pages))\<close>; \<open>page_num\<close> is the
  index of the first page of the list.
\<close>

fun pikepdf_pages :: "(pyexn + bool) list \<Rightarrow> nat \<Rightarrow> pystr \<Rightarrow> pyexn + pystr" where
  "pikepdf_pages [] page_num text = Inr text"
| "pikepdf_pages (Inl e # pages) page_num text = Inl e"
| "pikepdf_pages (Inr has_contents # pages) page_num text =
     (if has_contents
      then pikepdf_pages pages (page_num + 1)
             (text @ lit ''Page '' @ str_nat (page_num + 1) @ lit '' - Content available'' @ [10])
      else pikepdf_pages pages (page_num + 1) text)"

definition extract_with_pikepdf :: "env \<Rightarrow> pystr \<Rightarrow> pyexn + pystr" where
  "extract_with_pikepdf E pdf_path =
     try_except
       (case pikepdf_open E pdf_path of
          Inl e \<Rightarrow> Inl e
        | Inr pages \<Rightarrow>
            (case pikepdf_pages pages 0 [] of
               Inl e \<Rightarrow> Inl e
             | Inr text \<Rightarrow>
                 Inr (if text \<noteq> [] then strip text
                      else lit ''No extractable text found with pikepdf'')))
       (\<lambda>e. Inr (lit ''PikePDF Error: '' @ str_exn e))"

text \<open>
  The line that \<^verbatim>\<open>extract_with_pikepdf\<close> writes for the page with the 1-based number
  \<open>n\<close>, without its newline, and the lines for a document whose pages have content as
  the booleans \<open>hs\<close> say, the first page having the 0-based index \<open>k\<close>.
\<close>

definition page_line :: "nat \<Rightarrow> pystr" where
  "page_line n = lit ''Page '' @ str_nat n @ lit '' - Content available''"

definition page_lines :: "nat \<Rightarrow> bool list \<Rightarrow> pystr list" where
  "page_lines k hs = map (\<lambda>(i, h). page_line (i + 1)) (filter snd (enumerate k hs))"

section \<open>The program\<close>

text \<open>
  What one run of the program leaves behind: the values printed (each
  \<^verbatim>\<open>print(json.dumps(v))\<close> appends \<open>v\<close>), the exit status, the exception of an uncaught
  raise if there is one (Python then prints a traceback and exits with status 1), and the
  extraction functions that were called, in order.
\<close>

datatype backend = Pdfplumber | Pypdf2 | Pikepdf

record run =
  stdout :: "json list"
  exit_status :: nat
  traceback :: "pyexn option"
  invoked :: "backend list"

definition uncaught :: "pyexn \<Rightarrow> backend list \<Rightarrow> run" where
  "uncaught e calls = \<lparr>stdout = [], exit_status = 1, traceback = Some e, invoked = calls\<rparr>"

text \<open>Lines 69 to 79: the choice of \<^verbatim>\<open>best_result\<close> and the final print.\<close>

definition report :: "pydict \<Rightarrow> backend list \<Rightarrow> run" where
  "report results calls =
     (case dict_getitem results (lit ''pdfplumber'') of
        Inl e \<Rightarrow> uncaught e calls
      | Inr r \<Rightarrow>
          let best_result =
                (if r = [] \<or> length r < 100
                 then (let a = dict_get results (lit ''pypdf2'') []
                       in if a \<noteq> [] then a else dict_get results (lit ''pikepdf'') [])
                 else r)
          in \<lparr>stdout =
                 [JObject
                    [(lit ''success'', JBool True),
                     (lit ''text'', JString best_result),
                     (lit ''length'', JInt (int (length best_result))),
                     (lit ''methods_used'', JArray (map JString (dict_keys results)))]],
               exit_status = 0, traceback = None, invoked = calls\<rparr>)"

text \<open>Lines 59 to 67: the calls of the backends, filling \<^verbatim>\<open>results\<close>.\<close>

definition extract_all :: "env \<Rightarrow> pystr \<Rightarrow> run" where
  "extract_all E pdf_path =
     (case extract_with_pdfplumber E pdf_path of
        Inl e \<Rightarrow> uncaught e [Pdfplumber]
      | Inr r1 \<Rightarrow>
          let results = dict_setitem [] (lit ''pdfplumber'') r1 in
          (case dict_getitem results (lit ''pdfplumber'') of
             Inl e \<Rightarrow> uncaught e [Pdfplumber]
           | Inr r \<Rightarrow>
               if r = [] \<or> length r < 100 then
                 (case extract_with_pyPDF2 E pdf_path of
                    Inl e \<Rightarrow> uncaught e [Pdfplumber, Pypdf2]
                  | Inr r2 \<Rightarrow>
                      let results = dict_setitem results (lit ''pypdf2'') r2 in
                      (case extract_with_pikepdf E pdf_path of
                         Inl e \<Rightarrow> uncaught e [Pdfplumber, Pypdf2, Pikepdf]
                       | Inr r3 \<Rightarrow>
                           let results = dict_setitem results (lit ''pikepdf'') r3 in
                           report results [Pdfplumber, Pypdf2, Pikepdf]))
               else report results [Pdfplumber]))"

text \<open>
  \<^verbatim>\<open>main()\<close>; \<open>argv\<close> is \<^verbatim>\<open>sys.argv\<close>, the script's name first. The existence test of
  line 55 stands outside every \<^verbatim>\<open>try\<close>: when it raises, nothing has been printed and the
  run ends in a traceback.
\<close>

definition main :: "env \<Rightarrow> pystr list \<Rightarrow> run" where
  "main E argv =
     (if length argv \<noteq> 2 then
        \<lparr>stdout = [JObject [(lit ''error'', JString (lit ''Please provide PDF file path''))]],
         exit_status = 1, traceback = None, invoked = []\<rparr>
      else
        let pdf_path = argv ! 1 in
        (case path_exists E pdf_path of
           Inl e \<Rightarrow> uncaught e []
         | Inr found \<Rightarrow>
             if \<not> found then
               \<lparr>stdout =
                  [JObject [(lit ''error'', JString (lit ''File not found: '' @ pdf_path))]],
                exit_status = 1, traceback = None, invoked = []\<rparr>
             else extract_all E pdf_path))"

section \<open>Example runs\<close>

text \<open>Concrete environments and arguments, on which the theorems below are instantiated.\<close>

definition prog :: pystr where
  "prog = lit ''pdf_extractor.py''"

definition env_invoice :: env where
  "env_invoice =
     \<lparr>path_exists = (\<lambda>p. Inr (p = lit ''invoice.pdf'')),
      pdfplumber_open = (\<lambda>p. Inr [Inr (Some (lit ''Invoice 42''))]),
      PyPDF2_PdfReader = (\<lambda>p. Inr [Inr (lit ''Invoice  42'')]),
      pikepdf_open = (\<lambda>p. Inr [Inr True])\<rparr>"

definition env_report :: env where
  "env_report =
     \<lparr>path_exists = (\<lambda>p. Inr (p = lit ''report.pdf'')),
      pdfplumber_open = (\<lambda>p. Inr [Inr (Some (replicate 120 120)), Inr None]),
      PyPDF2_PdfReader = (\<lambda>p. Inl (Exception (lit ''EOF marker not found''))),
      pikepdf_open = (\<lambda>p. Inr [Inr True, Inr False])\<rparr>"

definition env_report' :: env where
  "env_report' =
     \<lparr>path_exists = (\<lambda>p. Inr (p = lit ''report.pdf'')),
      pdfplumber_open = (\<lambda>p. Inr [Inr (Some (replicate 120 120)), Inr None]),
      PyPDF2_PdfReader = (\<lambda>p. Inr [Inr (lit ''other'')]),
      pikepdf_open = (\<lambda>p. Inl (Exception (lit ''unable to find trailer dictionary'')))\<rparr>"

definition scans_dir :: pystr where
  "scans_dir = lit ''/srv/freightdocbot/uploads/2024/inbound/customs-declarations/scans''"

definition env_directory :: env where
  "env_directory =
     \<lparr>path_exists = (\<lambda>p. Inr (p = scans_dir)),
      pdfplumber_open =
        (\<lambda>p. Inl (Exception (lit ''[Errno 21] Is a directory: '' @ [39] @ p @ [39]))),
      PyPDF2_PdfReader =
        (\<lambda>p. Inl (Exception (lit ''[Errno 21] Is a directory: '' @ [39] @ p @ [39]))),
      pikepdf_open =
        (\<lambda>p. Inl (Exception (lit ''[Errno 21] Is a directory: '' @ [39] @ p @ [39])))\<rparr>"

definition env_broken :: env where
  "env_broken =
     \<lparr>path_exists = (\<lambda>p. Inr (p = lit ''broken.pdf'')),
      pdfplumber_open = (\<lambda>p. Inl (Exception (lit ''No /Root object! - Is this really a PDF?''))),
      PyPDF2_PdfReader =
        (\<lambda>p. Inr [Inr (lit ''Bill of lading''), Inl (Exception (lit ''EOF marker not found''))]),
      pikepdf_open = (\<lambda>p. Inl (Exception (lit ''unable to find trailer dictionary'')))\<rparr>"

definition env_scans :: env where
  "env_scans =
     \<lparr>path_exists = (\<lambda>p. Inr True),
      pdfplumber_open = (\<lambda>p. Inr []),
      PyPDF2_PdfReader = (\<lambda>p. Inr []),
      pikepdf_open =
        (\<lambda>p. if p = lit ''scan.pdf'' then Inr [Inr True, Inr False, Inr True]
             else if p = lit ''blank.pdf'' then Inr [Inr False]
             else Inl (Exception (lit ''unable to find trailer dictionary'')))\<rparr>"

definition env_padded :: env where
  "env_padded =
     \<lparr>path_exists = (\<lambda>p. Inr True),
      pdfplumber_open =
        (\<lambda>p. if p = lit ''padded.pdf'' then Inr [Inr (Some (lit '' Invoice 42''))]
             else Inr [Inr (Some (lit ''a'')), Inr (Some []), Inr (Some (lit ''b''))]),
      PyPDF2_PdfReader = (\<lambda>p. Inr [Inr (lit '' Invoice 42'')]),
      pikepdf_open = (\<lambda>p. Inr [Inr True])\<rparr>"

text \<open>
  A file name of 256 characters: \<^verbatim>\<open>stat\<close> fails with ENAMETOOLONG, which
  \<^verbatim>\<open>Path.exists\<close> re-raises.
\<close>

definition long_name :: pystr where
  "long_name = replicate 256 97"

definition env_long_name :: env where
  "env_long_name =
     \<lparr>path_exists =
        (\<lambda>p. if 255 < length p
             then Inl (Exception (lit ''[Errno 36] File name too long: '' @ [39] @ p @ [39]))
             else Inr False),
      pdfplumber_open =
        (\<lambda>p. Inl (Exception (lit ''[Errno 36] File name too long: '' @ [39] @ p @ [39]))),
      PyPDF2_PdfReader =
        (\<lambda>p. Inl (Exception (lit ''[Errno 36] File name too long: '' @ [39] @ p @ [39]))),
      pikepdf_open =
        (\<lambda>p. Inl (Exception (lit ''[Errno 36] File name too long: '' @ [39] @ p @ [39])))\<rparr>"

section \<open>Facts about the string operations and the page loops\<close>

lemma lit_keys_distinct:
  "lit ''pdfplumber'' \<noteq> lit ''pypdf2''" "lit ''pdfplumber'' \<noteq> lit ''pikepdf''"
  "lit ''pypdf2'' \<noteq> lit ''pikepdf''" "lit ''pypdf2'' \<noteq> lit ''pdfplumber''"
  "lit ''pikepdf'' \<noteq> lit ''pdfplumber''" "lit ''pikepdf'' \<noteq> lit ''pypdf2''"
  by (simp_all add: lit_def)

subsection \<open>Stripping\<close>

lemma rstrip_decomp: "s = rstrip s @ rev (takeWhile isspace (rev s))"
proof -
  have "rev (takeWhile isspace (rev s) @ dropWhile isspace (rev s)) = s"
    by (simp only: takeWhile_dropWhile_id rev_rev_ident)
  then show ?thesis
    by (simp only: rev_append rstrip_def)
qed

lemma hd_rstrip: "rstrip s \<noteq> [] \<Longrightarrow> hd (rstrip s) = hd s"
  using rstrip_decomp [of s] by (metis hd_append2)

lemma last_rstrip: "rstrip s \<noteq> [] \<Longrightarrow> \<not> isspace (last (rstrip s))"
proof -
  assume ne: "rstrip s \<noteq> []"
  then have d: "dropWhile isspace (rev s) \<noteq> []"
    by (simp add: rstrip_def)
  have "last (rstrip s) = hd (dropWhile isspace (rev s))"
    using d by (simp add: rstrip_def last_rev)
  with d show ?thesis
    by (simp add: hd_dropWhile)
qed

lemma hd_lstrip: "lstrip s \<noteq> [] \<Longrightarrow> \<not> isspace (hd (lstrip s))"
  by (simp add: lstrip_def hd_dropWhile)

lemma strip_ends:
  assumes "strip s \<noteq> []"
  shows "\<not> isspace (hd (strip s))" and "\<not> isspace (last (strip s))"
proof -
  from assms have r: "rstrip (lstrip s) \<noteq> []"
    by (simp add: strip_def)
  then have l: "lstrip s \<noteq> []"
    by (auto simp: rstrip_def)
  show "\<not> isspace (hd (strip s))"
    using hd_rstrip [OF r] hd_lstrip [OF l] by (simp add: strip_def)
  show "\<not> isspace (last (strip s))"
    using last_rstrip [OF r] by (simp add: strip_def)
qed

lemma rstrip_append_space: "\<forall>c\<in>set w. isspace c \<Longrightarrow> rstrip (a @ w) = rstrip a"
proof -
  assume "\<forall>c\<in>set w. isspace c"
  then have "dropWhile isspace (rev w @ rev a) = dropWhile isspace (rev a)"
    by (intro dropWhile_append2) simp
  then show ?thesis
    by (simp add: rstrip_def)
qed

lemma lstrip_all_space: "\<forall>c\<in>set a. isspace c \<Longrightarrow> lstrip a = []"
  by (simp add: lstrip_def)

lemma strip_append_space:
  assumes w: "\<forall>c\<in>set w. isspace c"
  shows "strip (a @ w) = strip a"
proof (cases "\<forall>c\<in>set a. isspace c")
  case True
  with w have "\<forall>c\<in>set (a @ w). isspace c"
    by auto
  then have "lstrip (a @ w) = []"
    by (rule lstrip_all_space)
  moreover from True have "lstrip a = []"
    by (rule lstrip_all_space)
  ultimately show ?thesis
    by (simp add: strip_def)
next
  case False
  then obtain c where "c \<in> set a" "\<not> isspace c"
    by blast
  then have "lstrip (a @ w) = lstrip a @ w"
    by (simp add: lstrip_def dropWhile_append1)
  with w show ?thesis
    by (simp add: strip_def rstrip_append_space)
qed

lemma strip_id: "s \<noteq> [] \<Longrightarrow> \<not> isspace (hd s) \<Longrightarrow> \<not> isspace (last s) \<Longrightarrow> strip s = s"
proof -
  assume ne: "s \<noteq> []" and h: "\<not> isspace (hd s)" and l: "\<not> isspace (last s)"
  from ne h have a: "lstrip s = s"
    by (cases s) (simp_all add: lstrip_def)
  from ne l have "dropWhile isspace (rev s) = rev s"
    by (cases "rev s") (simp_all add: last_rev [symmetric] hd_rev)
  then have "rstrip s = s"
    by (simp add: rstrip_def)
  with a show ?thesis
    by (simp add: strip_def)
qed

subsection \<open>Joining\<close>

lemma concat_sep_join:
  "ts \<noteq> [] \<Longrightarrow> concat (map (\<lambda>t. t @ sep) ts) = join sep ts @ sep"
  by (induction sep ts rule: join.induct) simp_all

lemma strip_concat_join:
  assumes "\<forall>c\<in>set sep. isspace c"
  shows "strip (concat (map (\<lambda>t. t @ sep) ts)) = strip (join sep ts)"
proof (cases "ts = []")
  case True
  then show ?thesis by simp
next
  case False
  then show ?thesis
    using assms by (simp add: concat_sep_join strip_append_space)
qed

subsection \<open>The page loops\<close>

lemma pyPDF2_pages_ok:
  "pyPDF2_pages (map Inr ts) acc = Inr (acc @ concat (map (\<lambda>t. t @ [10, 10]) ts))"
  by (induction ts arbitrary: acc) simp_all

lemma pyPDF2_pages_raise:
  "pyPDF2_pages (map Inr ts @ Inl e # rest) acc = Inl e"
  by (induction ts arbitrary: acc) simp_all

lemma pdfplumber_pages_ok:
  "pdfplumber_pages (map Inr os) acc =
     Inr (acc @ concat (map (\<lambda>t. t @ [10, 10]) [t. Some t \<leftarrow> os, t \<noteq> []]))"
proof (induction os arbitrary: acc)
  case Nil
  then show ?case by simp
next
  case (Cons x os)
  then show ?case by (cases x) simp_all
qed

lemma pdfplumber_pages_raise:
  "pdfplumber_pages (map Inr os @ Inl e # rest) acc = Inl e"
proof (induction os arbitrary: acc)
  case Nil
  then show ?case by simp
next
  case (Cons x os)
  then show ?case by (cases x) simp_all
qed

lemma pikepdf_pages_ok:
  "pikepdf_pages (map Inr hs) k acc =
     Inr (acc @ concat (map (\<lambda>l. l @ [10]) (page_lines k hs)))"
  by (induction hs arbitrary: k acc) (simp_all add: page_lines_def page_line_def)

lemma pikepdf_pages_raise:
  "pikepdf_pages (map Inr hs @ Inl e # rest) k acc = Inl e"
  by (induction hs arbitrary: k acc) simp_all

lemma page_lines_empty: "page_lines k hs = [] \<longleftrightarrow> True \<notin> set hs"
  by (induction hs arbitrary: k) (auto simp: page_lines_def)

lemma page_line_ends: "page_line n \<noteq> []" "hd (page_line n) = 80" "last (page_line n) = 101"
  by (simp_all add: page_line_def lit_def)

lemma join_lines_ends:
  "ls \<noteq> [] \<Longrightarrow> \<forall>l\<in>set ls. l \<noteq> [] \<and> hd l = a \<and> last l = b \<Longrightarrow>
     join sep ls \<noteq> [] \<and> hd (join sep ls) = a \<and> last (join sep ls) = b"
  by (induction sep ls rule: join.induct) auto

lemma page_lines_all: "\<forall>l\<in>set (page_lines k hs). l \<noteq> [] \<and> hd l = 80 \<and> last l = 101"
  by (auto simp: page_lines_def page_line_ends)

lemma strip_page_lines:
  assumes "True \<in> set hs"
  shows "strip (concat (map (\<lambda>l. l @ [10]) (page_lines k hs))) = join [10] (page_lines k hs)"
    and "join [10] (page_lines k hs) \<noteq> []"
proof -
  from assms have ne: "page_lines k hs \<noteq> []"
    by (simp add: page_lines_empty)
  from join_lines_ends [OF ne page_lines_all]
  have j: "join [10] (page_lines k hs) \<noteq> []" "hd (join [10] (page_lines k hs)) = 80"
    "last (join [10] (page_lines k hs)) = 101"
    by simp_all
  show "join [10] (page_lines k hs) \<noteq> []"
    by (rule j)
  have "strip (concat (map (\<lambda>l. l @ [10]) (page_lines k hs))) = strip (join [10] (page_lines k hs))"
    by (rule strip_concat_join) (simp add: isspace_def)
  also have "\<dots> = join [10] (page_lines k hs)"
    using j by (intro strip_id) (simp_all add: isspace_def)
  finally show "strip (concat (map (\<lambda>l. l @ [10]) (page_lines k hs))) = join [10] (page_lines k hs)" .
qed

subsection \<open>The extraction functions, case by case\<close>

lemma all_ok_or_first_raise:
  "(\<exists>vs. xs = map Inr vs) \<or> (\<exists>vs e rest. xs = map Inr vs @ Inl e # rest)"
proof (induction xs)
  case Nil
  then show ?case by simp
next
  case (Cons x xs)
  show ?case
  proof (cases x)
    case (Inl e)
    then have "x # xs = map Inr [] @ Inl e # xs"
      by simp
    then show ?thesis
      by (intro disjI2 exI [of _ "[]"] exI [of _ e] exI [of _ xs])
  next
    case (Inr v)
    from Cons.IH show ?thesis
    proof
      assume "\<exists>vs. xs = map Inr vs"
      then obtain vs where "xs = map Inr vs" ..
      with Inr have "x # xs = map Inr (v # vs)"
        by simp
      then show ?thesis
        by (intro disjI1 exI [of _ "v # vs"])
    next
      assume "\<exists>vs e rest. xs = map Inr vs @ Inl e # rest"
      then obtain vs e rest where "xs = map Inr vs @ Inl e # rest"
        by blast
      with Inr have "x # xs = map Inr (v # vs) @ Inl e # rest"
        by simp
      then show ?thesis
        by (intro disjI2 exI [of _ "v # vs"] exI [of _ e] exI [of _ rest])
    qed
  qed
qed

lemma pdfplumber_cases:
  "pdfplumber_open E p = Inl e \<Longrightarrow>
     extract_with_pdfplumber E p = Inr (lit ''PDFPlumber Error: '' @ str_exn e)"
  "pdfplumber_open E p = Inr (map Inr os @ Inl e # rest) \<Longrightarrow>
     extract_with_pdfplumber E p = Inr (lit ''PDFPlumber Error: '' @ str_exn e)"
  "pdfplumber_open E p = Inr (map Inr os) \<Longrightarrow>
     extract_with_pdfplumber E p =
       Inr (strip (concat (map (\<lambda>t. t @ [10, 10]) [t. Some t \<leftarrow> os, t \<noteq> []])))"
  by (simp_all add: extract_with_pdfplumber_def try_except_def pdfplumber_pages_raise
      pdfplumber_pages_ok)

lemma pyPDF2_cases:
  "PyPDF2_PdfReader E p = Inl e \<Longrightarrow>
     extract_with_pyPDF2 E p = Inr (lit ''PyPDF2 Error: '' @ str_exn e)"
  "PyPDF2_PdfReader E p = Inr (map Inr ts @ Inl e # rest) \<Longrightarrow>
     extract_with_pyPDF2 E p = Inr (lit ''PyPDF2 Error: '' @ str_exn e)"
  "PyPDF2_PdfReader E p = Inr (map Inr ts) \<Longrightarrow>
     extract_with_pyPDF2 E p = Inr (strip (concat (map (\<lambda>t. t @ [10, 10]) ts)))"
  by (simp_all add: extract_with_pyPDF2_def try_except_def pyPDF2_pages_raise pyPDF2_pages_ok)

lemma pikepdf_cases:
  "pikepdf_open E p = Inl e \<Longrightarrow>
     extract_with_pikepdf E p = Inr (lit ''PikePDF Error: '' @ str_exn e)"
  "pikepdf_open E p = Inr (map Inr hs @ Inl e # rest) \<Longrightarrow>
     extract_with_pikepdf E p = Inr (lit ''PikePDF Error: '' @ str_exn e)"
  "pikepdf_open E p = Inr (map Inr hs) \<Longrightarrow> True \<in> set hs \<Longrightarrow>
     extract_with_pikepdf E p = Inr (join [10] (page_lines 0 hs))"
  "pikepdf_open E p = Inr (map Inr hs) \<Longrightarrow> True \<notin> set hs \<Longrightarrow>
     extract_with_pikepdf E p = Inr (lit ''No extractable text found with pikepdf'')"
proof -
  show "pikepdf_open E p = Inl e \<Longrightarrow>
     extract_with_pikepdf E p = Inr (lit ''PikePDF Error: '' @ str_exn e)"
    by (simp add: extract_with_pikepdf_def try_except_def)
  show "pikepdf_open E p = Inr (map Inr hs @ Inl e # rest) \<Longrightarrow>
     extract_with_pikepdf E p = Inr (lit ''PikePDF Error: '' @ str_exn e)"
    by (simp add: extract_with_pikepdf_def try_except_def pikepdf_pages_raise)
  show "pikepdf_open E p = Inr (map Inr hs) \<Longrightarrow> True \<in> set hs \<Longrightarrow>
     extract_with_pikepdf E p = Inr (join [10] (page_lines 0 hs))"
    using page_lines_empty [of 0 hs]
    by (simp add: extract_with_pikepdf_def try_except_def pikepdf_pages_ok strip_page_lines)
  show "pikepdf_open E p = Inr (map Inr hs) \<Longrightarrow> True \<notin> set hs \<Longrightarrow>
     extract_with_pikepdf E p = Inr (lit ''No extractable text found with pikepdf'')"
    using page_lines_empty [of 0 hs]
    by (simp add: extract_with_pikepdf_def try_except_def pikepdf_pages_ok)
qed

lemma extract_with_pdfplumber_returns: "\<exists>s. extract_with_pdfplumber E p = Inr s"
  by (simp add: extract_with_pdfplumber_def try_except_def split: sum.splits)

lemma extract_with_pyPDF2_returns: "\<exists>s. extract_with_pyPDF2 E p = Inr s"
  by (simp add: extract_with_pyPDF2_def try_except_def split: sum.splits)

lemma extract_with_pikepdf_returns: "\<exists>s. extract_with_pikepdf E p = Inr s"
  by (simp add: extract_with_pikepdf_def try_except_def split: sum.splits)

lemma extract_with_pikepdf_nonempty: "extract_with_pikepdf E p \<noteq> Inr []"
proof (cases "pikepdf_open E p")
  case (Inl e)
  then show ?thesis
    by (simp add: pikepdf_cases(1) lit_def)
next
  case (Inr pages)
  from all_ok_or_first_raise [of pages] show ?thesis
  proof (elim disjE exE)
    fix hs
    assume "pages = map Inr hs"
    with Inr have o: "pikepdf_open E p = Inr (map Inr hs)"
      by simp
    show ?thesis
    proof (cases "True \<in> set hs")
      case True
      with o show ?thesis
        by (simp add: pikepdf_cases(3) strip_page_lines(2))
    next
      case False
      with o show ?thesis
        by (simp add: pikepdf_cases(4) lit_def)
    qed
  next
    fix hs e rest
    assume "pages = map Inr hs @ Inl e # rest"
    with Inr have "pikepdf_open E p = Inr (map Inr hs @ Inl e # rest)"
      by simp
    then show ?thesis
      by (simp add: pikepdf_cases(2) lit_def)
  qed
qed

subsection \<open>The program, case by case\<close>

lemma extract_all_long:
  assumes "extract_with_pdfplumber E p = Inr t" and "100 \<le> length t"
  shows "extract_all E p =
     \<lparr>stdout =
        [JObject
           [(lit ''success'', JBool True),
            (lit ''text'', JString t),
            (lit ''length'', JInt (int (length t))),
            (lit ''methods_used'', JArray [JString (lit ''pdfplumber'')])]],
      exit_status = 0, traceback = None, invoked = [Pdfplumber]\<rparr>"
proof -
  from assms(2) have "\<not> (t = [] \<or> length t < 100)"
    by auto
  with assms(1) show ?thesis
    by (simp add: extract_all_def report_def dict_setitem_def dict_getitem_def dict_keys_def)
qed

lemma extract_all_short:
  assumes "extract_with_pdfplumber E p = Inr t" and "length t < 100"
    and "extract_with_pyPDF2 E p = Inr t2"
    and "extract_with_pikepdf E p = Inr t3"
  shows "extract_all E p =
     \<lparr>stdout =
        [JObject
           [(lit ''success'', JBool True),
            (lit ''text'', JString (if t2 \<noteq> [] then t2 else t3)),
            (lit ''length'', JInt (int (length (if t2 \<noteq> [] then t2 else t3)))),
            (lit ''methods_used'',
             JArray [JString (lit ''pdfplumber''), JString (lit ''pypdf2''),
                     JString (lit ''pikepdf'')])]],
      exit_status = 0, traceback = None, invoked = [Pdfplumber, Pypdf2, Pikepdf]\<rparr>"
  using assms
  by (simp add: extract_all_def report_def dict_setitem_def dict_getitem_def
      dict_get_def dict_keys_def lit_keys_distinct)

lemma extract_all_shape:
  obtains t ms calls where
    "extract_all E p =
       \<lparr>stdout =
          [JObject
             [(lit ''success'', JBool True),
              (lit ''text'', JString t),
              (lit ''length'', JInt (int (length t))),
              (lit ''methods_used'', JArray ms)]],
        exit_status = 0, traceback = None, invoked = calls\<rparr>"
proof -
  obtain t1 where t1: "extract_with_pdfplumber E p = Inr t1"
    using extract_with_pdfplumber_returns by blast
  obtain t2 where t2: "extract_with_pyPDF2 E p = Inr t2"
    using extract_with_pyPDF2_returns by blast
  obtain t3 where t3: "extract_with_pikepdf E p = Inr t3"
    using extract_with_pikepdf_returns by blast
  show ?thesis
  proof (cases "length t1 < 100")
    case True
    from extract_all_short [OF t1 True t2 t3] show ?thesis
      by (rule that)
  next
    case False
    then have "100 \<le> length t1"
      by simp
    from extract_all_long [OF t1 this] show ?thesis
      by (rule that)
  qed
qed

lemma extract_all_no_traceback: "traceback (extract_all E p) = None"
  by (rule extract_all_shape [of E p]) simp

lemma main_usage:
  "length argv \<noteq> 2 \<Longrightarrow>
     main E argv =
       \<lparr>stdout = [JObject [(lit ''error'', JString (lit ''Please provide PDF file path''))]],
        exit_status = 1, traceback = None, invoked = []\<rparr>"
  by (simp add: main_def)

lemma main_missing:
  "length argv = 2 \<Longrightarrow> path_exists E (argv ! 1) = Inr False \<Longrightarrow>
     main E argv =
       \<lparr>stdout = [JObject [(lit ''error'', JString (lit ''File not found: '' @ argv ! 1))]],
        exit_status = 1, traceback = None, invoked = []\<rparr>"
  by (simp add: main_def)

lemma main_exists_raises:
  "length argv = 2 \<Longrightarrow> path_exists E (argv ! 1) = Inl e \<Longrightarrow>
     main E argv = \<lparr>stdout = [], exit_status = 1, traceback = Some e, invoked = []\<rparr>"
  by (simp add: main_def uncaught_def)

lemma main_found:
  "length argv = 2 \<Longrightarrow> path_exists E (argv ! 1) = Inr True \<Longrightarrow>
     main E argv = extract_all E (argv ! 1)"
  by (simp add: main_def)

lemma main_long:
  assumes "length argv = 2" and "path_exists E (argv ! 1) = Inr True"
    and "extract_with_pdfplumber E (argv ! 1) = Inr t" and "100 \<le> length t"
  shows "main E argv =
     \<lparr>stdout =
        [JObject
           [(lit ''success'', JBool True),
            (lit ''text'', JString t),
            (lit ''length'', JInt (int (length t))),
            (lit ''methods_used'', JArray [JString (lit ''pdfplumber'')])]],
      exit_status = 0, traceback = None, invoked = [Pdfplumber]\<rparr>"
  unfolding main_found [OF assms(1,2)] using assms(3,4) by (rule extract_all_long)

lemma main_short:
  assumes "length argv = 2" and "path_exists E (argv ! 1) = Inr True"
    and "extract_with_pdfplumber E (argv ! 1) = Inr t" and "length t < 100"
    and "extract_with_pyPDF2 E (argv ! 1) = Inr t2"
    and "extract_with_pikepdf E (argv ! 1) = Inr t3"
  shows "main E argv =
     \<lparr>stdout =
        [JObject
           [(lit ''success'', JBool True),
            (lit ''text'', JString (if t2 \<noteq> [] then t2 else t3)),
            (lit ''length'', JInt (int (length (if t2 \<noteq> [] then t2 else t3)))),
            (lit ''methods_used'',
             JArray [JString (lit ''pdfplumber''), JString (lit ''pypdf2''),
                     JString (lit ''pikepdf'')])]],
      exit_status = 0, traceback = None, invoked = [Pdfplumber, Pypdf2, Pikepdf]\<rparr>"
  unfolding main_found [OF assms(1,2)] using assms(3-6) by (rule extract_all_short)

subsection \<open>Every run has one of four shapes\<close>

lemma main_shapes:
  obtains
    (usage) "length argv \<noteq> 2"
      "main E argv =
         \<lparr>stdout = [JObject [(lit ''error'', JString (lit ''Please provide PDF file path''))]],
          exit_status = 1, traceback = None, invoked = []\<rparr>"
  | (raises) e where "length argv = 2" "path_exists E (argv ! 1) = Inl e"
      "main E argv = \<lparr>stdout = [], exit_status = 1, traceback = Some e, invoked = []\<rparr>"
  | (missing) "length argv = 2" "path_exists E (argv ! 1) = Inr False"
      "main E argv =
         \<lparr>stdout = [JObject [(lit ''error'', JString (lit ''File not found: '' @ argv ! 1))]],
          exit_status = 1, traceback = None, invoked = []\<rparr>"
  | (success) t ms calls where "length argv = 2" "path_exists E (argv ! 1) = Inr True"
      "main E argv =
         \<lparr>stdout =
            [JObject
               [(lit ''success'', JBool True),
                (lit ''text'', JString t),
                (lit ''length'', JInt (int (length t))),
                (lit ''methods_used'', JArray ms)]],
          exit_status = 0, traceback = None, invoked = calls\<rparr>"
proof (cases "length argv \<noteq> 2")
  case True
  then show ?thesis
    using main_usage [of argv E] usage by blast
next
  case False
  then have l2: "length argv = 2"
    by simp
  show ?thesis
  proof (cases "path_exists E (argv ! 1)")
    case (Inl e)
    from l2 Inl main_exists_raises [OF l2 Inl] show ?thesis
      by (rule raises)
  next
    case (Inr found)
    show ?thesis
    proof (cases found)
      case False
      with Inr have m: "path_exists E (argv ! 1) = Inr False"
        by simp
      from l2 m main_missing [OF l2 m] show ?thesis
        by (rule missing)
    next
      case True
      with Inr have f: "path_exists E (argv ! 1) = Inr True"
        by simp
      obtain t ms calls where
        "extract_all E (argv ! 1) =
           \<lparr>stdout =
              [JObject
                 [(lit ''success'', JBool True),
                  (lit ''text'', JString t),
                  (lit ''length'', JInt (int (length t))),
                  (lit ''methods_used'', JArray ms)]],
            exit_status = 0, traceback = None, invoked = calls\<rparr>"
        by (rule extract_all_shape)
      then have "main E argv =
           \<lparr>stdout =
              [JObject
                 [(lit ''success'', JBool True),
                  (lit ''text'', JString t),
                  (lit ''length'', JInt (int (length t))),
                  (lit ''methods_used'', JArray ms)]],
            exit_status = 0, traceback = None, invoked = calls\<rparr>"
        by (simp only: main_found [OF l2 f])
      with l2 f show ?thesis
        by (rule success)
    qed
  qed
qed

lemma extract_pdfplumber_cong:
  "pdfplumber_open E' = pdfplumber_open E \<Longrightarrow>
     extract_with_pdfplumber E' p = extract_with_pdfplumber E p"
  by (simp add: extract_with_pdfplumber_def)

lemma json_keys_distinct:
  "lit ''text'' \<noteq> lit ''success''" "lit ''length'' \<noteq> lit ''success''"
  "lit ''length'' \<noteq> lit ''text''" "lit ''methods_used'' \<noteq> lit ''success''"
  "lit ''methods_used'' \<noteq> lit ''text''" "lit ''methods_used'' \<noteq> lit ''length''"
  "lit ''success'' \<noteq> lit ''error''"
  by (simp_all add: lit_def)

subsection \<open>The example runs\<close>

lemma env_invoice_extracts:
  "extract_with_pdfplumber env_invoice (lit ''invoice.pdf'') = Inr (lit ''Invoice 42'')"
  "extract_with_pyPDF2 env_invoice (lit ''invoice.pdf'') = Inr (lit ''Invoice  42'')"
  "extract_with_pikepdf env_invoice (lit ''invoice.pdf'') = Inr (lit ''Page 1 - Content available'')"
    apply (simp add: env_invoice_def extract_with_pdfplumber_def try_except_def strip_def
      lstrip_def rstrip_def isspace_def lit_def)
   apply (simp add: env_invoice_def extract_with_pyPDF2_def try_except_def strip_def
      lstrip_def rstrip_def isspace_def lit_def)
  apply (simp add: env_invoice_def extract_with_pikepdf_def try_except_def strip_def
      lstrip_def rstrip_def isspace_def lit_def str_nat.simps)
  done

lemma env_report_primary:
  "extract_with_pdfplumber env_report (lit ''report.pdf'') = Inr (replicate 120 120)"
proof -
  have "extract_with_pdfplumber env_report (lit ''report.pdf'') =
      Inr (strip (concat (map (\<lambda>t. t @ [10, 10])
        [t. Some t \<leftarrow> [Some (replicate 120 120), None], t \<noteq> []])))"
    by (rule pdfplumber_cases(3)) (simp add: env_report_def)
  also have "\<dots> = Inr (strip (replicate 120 120 @ [10, 10]))"
    by simp
  also have "\<dots> = Inr (strip (replicate 120 120))"
    by (simp add: strip_append_space isspace_def)
  also have "\<dots> = Inr (replicate 120 120)"
    by (simp add: strip_id isspace_def)
  finally show ?thesis .
qed

section \<open>The claims\<close>

text \<open>
  C1, as the claim states it, fails: on a document for which pdfplumber returns the ten
  characters \<open>Invoice 42\<close> and PyPDF2 returns \<open>Invoice  42\<close>, the primary result is
  non-empty and shorter than 100 characters, and the printed text is PyPDF2's.
\<close>

theorem C1_primary_preferred_counterexample:
  "extract_with_pdfplumber env_invoice (lit ''invoice.pdf'') = Inr (lit ''Invoice 42'')
   \<and> lit ''Invoice 42'' \<noteq> []
   \<and> length (lit ''Invoice 42'') < 100
   \<and> map (json_field (lit ''text'')) (stdout (main env_invoice [prog, lit ''invoice.pdf'']))
       = [Some (JString (lit ''Invoice  42''))]
   \<and> lit ''Invoice  42'' \<noteq> lit ''Invoice 42''"
proof -
  have "main env_invoice [prog, lit ''invoice.pdf''] =
     \<lparr>stdout =
        [JObject
           [(lit ''success'', JBool True),
            (lit ''text'', JString (if lit ''Invoice  42'' \<noteq> [] then lit ''Invoice  42''
               else lit ''Page 1 - Content available'')),
            (lit ''length'', JInt (int (length (if lit ''Invoice  42'' \<noteq> []
               then lit ''Invoice  42'' else lit ''Page 1 - Content available'')))),
            (lit ''methods_used'',
             JArray [JString (lit ''pdfplumber''), JString (lit ''pypdf2''),
                     JString (lit ''pikepdf'')])]],
      exit_status = 0, traceback = None, invoked = [Pdfplumber, Pypdf2, Pikepdf]\<rparr>"
    by (rule main_short [where t = "lit ''Invoice 42''"])
      (simp_all add: env_invoice_extracts, simp_all add: env_invoice_def lit_def)
  then have "map (json_field (lit ''text'')) (stdout (main env_invoice [prog, lit ''invoice.pdf'']))
       = [Some (JString (lit ''Invoice  42''))]"
    by (simp add: json_keys_distinct) (simp add: lit_def)
  then show ?thesis
    by (simp add: env_invoice_extracts) (simp add: lit_def)
qed

text \<open>
  C1, amended. When the primary backend returns fewer than 100 characters, empty or not,
  the printed \<open>text\<close> is the secondary backend's result if that is non-empty and the
  tertiary backend's result otherwise; the short primary result is not printed.
\<close>

theorem C1_short_primary_text:
  assumes "length argv = 2" and "path_exists E (argv ! 1) = Inr True"
    and "extract_with_pdfplumber E (argv ! 1) = Inr t" and "length t < 100"
    and "extract_with_pyPDF2 E (argv ! 1) = Inr t2"
    and "extract_with_pikepdf E (argv ! 1) = Inr t3"
  shows "map (json_field (lit ''text'')) (stdout (main E argv))
     = [Some (JString (if t2 \<noteq> [] then t2 else t3))]"
  by (simp add: main_short [OF assms] json_keys_distinct)

theorem C1_short_primary_text_witness:
  "map (json_field (lit ''text'')) (stdout (main env_invoice [prog, lit ''invoice.pdf'']))
     = [Some (JString (lit ''Invoice  42''))]"
proof -
  have a: "length [prog, lit ''invoice.pdf''] = 2"
    by simp
  have b: "path_exists env_invoice ([prog, lit ''invoice.pdf''] ! 1) = Inr True"
    by (simp add: env_invoice_def)
  have c: "extract_with_pdfplumber env_invoice ([prog, lit ''invoice.pdf''] ! 1) =
      Inr (lit ''Invoice 42'')"
    by (simp add: env_invoice_extracts)
  have d: "length (lit ''Invoice 42'') < 100"
    by (simp add: lit_def)
  have e: "extract_with_pyPDF2 env_invoice ([prog, lit ''invoice.pdf''] ! 1) =
      Inr (lit ''Invoice  42'')"
    by (simp add: env_invoice_extracts)
  have f: "extract_with_pikepdf env_invoice ([prog, lit ''invoice.pdf''] ! 1) =
      Inr (lit ''Page 1 - Content available'')"
    by (simp add: env_invoice_extracts)
  have g: "lit ''Invoice  42'' \<noteq> []"
    by (simp add: lit_def)
  from C1_short_primary_text [OF a b c d e f] g show ?thesis
    by simp
qed

text \<open>
  C2. When the primary backend returns at least 100 characters, the program prints
  success with that text, its length and \<open>methods_used = ["pdfplumber"]\<close>, exits with
  status 0, and has called \<open>extract_with_pdfplumber\<close> only; the run is the same in every
  environment that agrees on the path's existence and on pdfplumber, whatever the other
  two libraries would do.
\<close>

theorem C2_long_primary_alone:
  assumes "length argv = 2" and "path_exists E (argv ! 1) = Inr True"
    and "extract_with_pdfplumber E (argv ! 1) = Inr t" and "100 \<le> length t"
  shows "main E argv =
     \<lparr>stdout =
        [JObject
           [(lit ''success'', JBool True),
            (lit ''text'', JString t),
            (lit ''length'', JInt (int (length t))),
            (lit ''methods_used'', JArray [JString (lit ''pdfplumber'')])]],
      exit_status = 0, traceback = None, invoked = [Pdfplumber]\<rparr>
    \<and> (\<forall>E'. path_exists E' = path_exists E \<and> pdfplumber_open E' = pdfplumber_open E
          \<longrightarrow> main E' argv = main E argv)"
proof (intro conjI allI impI)
  show m: "main E argv =
     \<lparr>stdout =
        [JObject
           [(lit ''success'', JBool True),
            (lit ''text'', JString t),
            (lit ''length'', JInt (int (length t))),
            (lit ''methods_used'', JArray [JString (lit ''pdfplumber'')])]],
      exit_status = 0, traceback = None, invoked = [Pdfplumber]\<rparr>"
    using assms by (rule main_long)
  fix E' :: env
  assume same: "path_exists E' = path_exists E \<and> pdfplumber_open E' = pdfplumber_open E"
  then have "extract_with_pdfplumber E' (argv ! 1) = Inr t"
    using assms(3) extract_pdfplumber_cong [of E' E "argv ! 1"] by simp
  moreover from same assms(2) have "path_exists E' (argv ! 1) = Inr True"
    by simp
  ultimately show "main E' argv = main E argv"
    using assms(1,4) m by (simp add: main_long)
qed

theorem C2_long_primary_alone_witness:
  "main env_report [prog, lit ''report.pdf''] =
     \<lparr>stdout =
        [JObject
           [(lit ''success'', JBool True),
            (lit ''text'', JString (replicate 120 120)),
            (lit ''length'', JInt 120),
            (lit ''methods_used'', JArray [JString (lit ''pdfplumber'')])]],
      exit_status = 0, traceback = None, invoked = [Pdfplumber]\<rparr>
   \<and> main env_report' [prog, lit ''report.pdf''] = main env_report [prog, lit ''report.pdf'']"
proof -
  have a: "length [prog, lit ''report.pdf''] = 2"
    by simp
  have b: "path_exists env_report ([prog, lit ''report.pdf''] ! 1) = Inr True"
    by (simp add: env_report_def)
  have c: "extract_with_pdfplumber env_report ([prog, lit ''report.pdf''] ! 1) =
      Inr (replicate 120 120)"
    by (simp add: env_report_primary)
  have d: "100 \<le> length (replicate 120 (120::nat))"
    by simp
  have e: "path_exists env_report' = path_exists env_report \<and>
      pdfplumber_open env_report' = pdfplumber_open env_report"
    by (simp add: env_report_def env_report'_def)
  from C2_long_primary_alone [OF a b c d] e show ?thesis
    by simp
qed




text \<open>
  C4. Each of the three extraction functions returns a string in every environment and
  for every path; when its library raises, at the opening of the document or at a page,
  the string returned is the function's prefix followed by the exception's message; and
  the part of the program that calls the backends never ends in a traceback, so that a
  run ends in one only when the existence test before them has raised.
\<close>

theorem C4_backends_return_strings:
  "(\<exists>s. extract_with_pdfplumber E p = Inr s)
   \<and> (\<exists>s. extract_with_pyPDF2 E p = Inr s)
   \<and> (\<exists>s. extract_with_pikepdf E p = Inr s)
   \<and> (pdfplumber_open E p = Inl e1
        \<or> (\<exists>os rest. pdfplumber_open E p = Inr (map Inr os @ Inl e1 # rest))
      \<longrightarrow> extract_with_pdfplumber E p = Inr (lit ''PDFPlumber Error: '' @ str_exn e1))
   \<and> (PyPDF2_PdfReader E p = Inl e2
        \<or> (\<exists>ts rest. PyPDF2_PdfReader E p = Inr (map Inr ts @ Inl e2 # rest))
      \<longrightarrow> extract_with_pyPDF2 E p = Inr (lit ''PyPDF2 Error: '' @ str_exn e2))
   \<and> (pikepdf_open E p = Inl e3
        \<or> (\<exists>hs rest. pikepdf_open E p = Inr (map Inr hs @ Inl e3 # rest))
      \<longrightarrow> extract_with_pikepdf E p = Inr (lit ''PikePDF Error: '' @ str_exn e3))
   \<and> traceback (extract_all E p) = None
   \<and> (traceback (main E argv) = Some e
      \<longrightarrow> length argv = 2 \<and> path_exists E (argv ! 1) = Inl e)"
proof (intro conjI impI)
  show "\<exists>s. extract_with_pdfplumber E p = Inr s"
    by (rule extract_with_pdfplumber_returns)
  show "\<exists>s. extract_with_pyPDF2 E p = Inr s"
    by (rule extract_with_pyPDF2_returns)
  show "\<exists>s. extract_with_pikepdf E p = Inr s"
    by (rule extract_with_pikepdf_returns)
  show "extract_with_pdfplumber E p = Inr (lit ''PDFPlumber Error: '' @ str_exn e1)"
    if "pdfplumber_open E p = Inl e1
        \<or> (\<exists>os rest. pdfplumber_open E p = Inr (map Inr os @ Inl e1 # rest))"
    using that by (auto simp: pdfplumber_cases(1,2))
  show "extract_with_pyPDF2 E p = Inr (lit ''PyPDF2 Error: '' @ str_exn e2)"
    if "PyPDF2_PdfReader E p = Inl e2
        \<or> (\<exists>ts rest. PyPDF2_PdfReader E p = Inr (map Inr ts @ Inl e2 # rest))"
    using that by (auto simp: pyPDF2_cases(1,2))
  show "extract_with_pikepdf E p = Inr (lit ''PikePDF Error: '' @ str_exn e3)"
    if "pikepdf_open E p = Inl e3
        \<or> (\<exists>hs rest. pikepdf_open E p = Inr (map Inr hs @ Inl e3 # rest))"
    using that by (auto simp: pikepdf_cases(1,2))
  show "traceback (extract_all E p) = None"
    by (rule extract_all_no_traceback)
  show "length argv = 2" "path_exists E (argv ! 1) = Inl e"
    if "traceback (main E argv) = Some e"
    using that by (cases rule: main_shapes [of argv E]; simp)+
qed

theorem C4_backends_return_strings_witness:
  "extract_with_pdfplumber env_broken (lit ''broken.pdf'')
     = Inr (lit ''PDFPlumber Error: No /Root object! - Is this really a PDF?'')
   \<and> extract_with_pyPDF2 env_broken (lit ''broken.pdf'')
     = Inr (lit ''PyPDF2 Error: EOF marker not found'')
   \<and> extract_with_pikepdf env_broken (lit ''broken.pdf'')
     = Inr (lit ''PikePDF Error: unable to find trailer dictionary'')
   \<and> traceback (extract_all env_broken (lit ''broken.pdf'')) = None
   \<and> path_exists env_long_name ([prog, long_name] ! 1)
       = Inl (Exception (lit ''[Errno 36] File name too long: '' @ [39] @ long_name @ [39]))"
proof -
  let ?x = "Exception (lit ''[Errno 36] File name too long: '' @ [39] @ long_name @ [39])"
  have l: "length [prog, long_name] = 2"
    by simp
  have r: "path_exists env_long_name ([prog, long_name] ! 1) = Inl ?x"
    by (simp add: env_long_name_def long_name_def)
  have x: "traceback (main env_long_name [prog, long_name]) = Some ?x"
    by (simp add: main_exists_raises [OF l r])
  let ?e1 = "Exception (lit ''No /Root object! - Is this really a PDF?'')"
  let ?e2 = "Exception (lit ''EOF marker not found'')"
  let ?e3 = "Exception (lit ''unable to find trailer dictionary'')"
  have a: "pdfplumber_open env_broken (lit ''broken.pdf'') = Inl ?e1"
    by (simp add: env_broken_def)
  have "PyPDF2_PdfReader env_broken (lit ''broken.pdf'')
      = Inr (map Inr [lit ''Bill of lading''] @ Inl ?e2 # [])"
    by (simp add: env_broken_def)
  then have b: "\<exists>ts rest. PyPDF2_PdfReader env_broken (lit ''broken.pdf'')
      = Inr (map Inr ts @ Inl ?e2 # rest)"
    by blast
  have c: "pikepdf_open env_broken (lit ''broken.pdf'') = Inl ?e3"
    by (simp add: env_broken_def)
  have d: "lit ''PDFPlumber Error: '' @ str_exn ?e1
        = lit ''PDFPlumber Error: No /Root object! - Is this really a PDF?''"
      "lit ''PyPDF2 Error: '' @ str_exn ?e2 = lit ''PyPDF2 Error: EOF marker not found''"
      "lit ''PikePDF Error: '' @ str_exn ?e3
        = lit ''PikePDF Error: unable to find trailer dictionary''"
    by (simp_all add: lit_def)
  from C4_backends_return_strings
    [of env_broken "lit ''broken.pdf''" ?e1 ?e2 ?e3 "[prog, lit ''broken.pdf'']" ?x] a b c
    C4_backends_return_strings
    [of env_long_name "lit ''broken.pdf''" ?e1 ?e2 ?e3 "[prog, long_name]" ?x] x
  show ?thesis
    unfolding d by blast
qed

text \<open>
  C5. When the primary backend returns fewer than 100 characters (or nothing), the printed
  \<open>methods_used\<close> is \<open>["pdfplumber", "pypdf2", "pikepdf"]\<close>, and the three extraction
  functions were called in this order.
\<close>

theorem C5_short_primary_methods:
  assumes "length argv = 2" and "path_exists E (argv ! 1) = Inr True"
    and "extract_with_pdfplumber E (argv ! 1) = Inr t" and "t = [] \<or> length t < 100"
  shows "map (json_field (lit ''methods_used'')) (stdout (main E argv))
       = [Some (JArray [JString (lit ''pdfplumber''), JString (lit ''pypdf2''),
                        JString (lit ''pikepdf'')])]
     \<and> invoked (main E argv) = [Pdfplumber, Pypdf2, Pikepdf]"
proof -
  from assms(4) have short: "length t < 100"
    by auto
  obtain t2 where t2: "extract_with_pyPDF2 E (argv ! 1) = Inr t2"
    using extract_with_pyPDF2_returns by blast
  obtain t3 where t3: "extract_with_pikepdf E (argv ! 1) = Inr t3"
    using extract_with_pikepdf_returns by blast
  show ?thesis
    by (simp add: main_short [OF assms(1-3) short t2 t3] json_keys_distinct)
qed

theorem C5_short_primary_methods_witness:
  "map (json_field (lit ''methods_used'')) (stdout (main env_invoice [prog, lit ''invoice.pdf'']))
       = [Some (JArray [JString (lit ''pdfplumber''), JString (lit ''pypdf2''),
                        JString (lit ''pikepdf'')])]
   \<and> invoked (main env_invoice [prog, lit ''invoice.pdf'']) = [Pdfplumber, Pypdf2, Pikepdf]"
proof -
  have a: "length [prog, lit ''invoice.pdf''] = 2"
    by simp
  have b: "path_exists env_invoice ([prog, lit ''invoice.pdf''] ! 1) = Inr True"
    by (simp add: env_invoice_def)
  have c: "extract_with_pdfplumber env_invoice ([prog, lit ''invoice.pdf''] ! 1) =
      Inr (lit ''Invoice 42'')"
    by (simp add: env_invoice_extracts)
  have d: "lit ''Invoice 42'' = [] \<or> length (lit ''Invoice 42'') < 100"
    by (simp add: lit_def)
  show ?thesis
    by (rule C5_short_primary_methods [OF a b c d])
qed

text \<open>
  C6. In every object that the program prints with \<open>success\<close> true, \<open>length\<close> is the
  number of characters of \<open>text\<close>.
\<close>

theorem C6_length_is_len_text:
  "\<forall>obj\<in>set (stdout (main E argv)).
     json_field (lit ''success'') obj = Some (JBool True) \<longrightarrow>
       (\<exists>t. json_field (lit ''text'') obj = Some (JString t)
          \<and> json_field (lit ''length'') obj = Some (JInt (int (length t))))"
proof (cases rule: main_shapes [of argv E])
  case usage
  then show ?thesis
    by (simp add: json_keys_distinct)
next
  case (raises e)
  then show ?thesis
    by simp
next
  case missing
  then show ?thesis
    by (simp add: json_keys_distinct)
next
  case (success t ms calls)
  then show ?thesis
    by (simp add: json_keys_distinct)
qed

theorem C6_length_is_len_text_witness:
  "stdout (main env_invoice [prog, lit ''invoice.pdf'']) =
     [JObject
        [(lit ''success'', JBool True),
         (lit ''text'', JString (lit ''Invoice  42'')),
         (lit ''length'', JInt 11),
         (lit ''methods_used'',
          JArray [JString (lit ''pdfplumber''), JString (lit ''pypdf2''),
                  JString (lit ''pikepdf'')])]]
   \<and> (\<exists>t. json_field (lit ''text'') (hd (stdout (main env_invoice [prog, lit ''invoice.pdf''])))
            = Some (JString t)
        \<and> json_field (lit ''length'') (hd (stdout (main env_invoice [prog, lit ''invoice.pdf''])))
            = Some (JInt (int (length t))))"
proof -
  have m: "main env_invoice [prog, lit ''invoice.pdf''] =
     \<lparr>stdout =
        [JObject
           [(lit ''success'', JBool True),
            (lit ''text'', JString (if lit ''Invoice  42'' \<noteq> [] then lit ''Invoice  42''
               else lit ''Page 1 - Content available'')),
            (lit ''length'', JInt (int (length (if lit ''Invoice  42'' \<noteq> []
               then lit ''Invoice  42'' else lit ''Page 1 - Content available'')))),
            (lit ''methods_used'',
             JArray [JString (lit ''pdfplumber''), JString (lit ''pypdf2''),
                     JString (lit ''pikepdf'')])]],
      exit_status = 0, traceback = None, invoked = [Pdfplumber, Pypdf2, Pikepdf]\<rparr>"
    by (rule main_short [where t = "lit ''Invoice 42''"])
      (simp_all add: env_invoice_extracts, simp_all add: env_invoice_def lit_def)
  have s: "stdout (main env_invoice [prog, lit ''invoice.pdf'']) =
     [JObject
        [(lit ''success'', JBool True),
         (lit ''text'', JString (lit ''Invoice  42'')),
         (lit ''length'', JInt 11),
         (lit ''methods_used'',
          JArray [JString (lit ''pdfplumber''), JString (lit ''pypdf2''),
                  JString (lit ''pikepdf'')])]]"
    by (simp add: m) (simp add: lit_def)
  have "hd (stdout (main env_invoice [prog, lit ''invoice.pdf'']))
      \<in> set (stdout (main env_invoice [prog, lit ''invoice.pdf'']))"
    by (simp add: s)
  moreover have "json_field (lit ''success'')
      (hd (stdout (main env_invoice [prog, lit ''invoice.pdf'']))) = Some (JBool True)"
    by (simp add: s)
  ultimately show ?thesis
    using C6_length_is_len_text [of env_invoice "[prog, lit ''invoice.pdf'']"] s by blast
qed

text \<open>
  C8, as the claim states it, fails for both backends: a page text with leading white
  space loses it, so the result is not the joined page texts with only the trailing
  white space removed. For pdfplumber, moreover, a page with empty text between two
  others contributes no separator.
\<close>

theorem C8_trailing_only_counterexample:
  "PyPDF2_PdfReader env_padded (lit ''padded.pdf'') = Inr (map Inr [lit '' Invoice 42''])
   \<and> extract_with_pyPDF2 env_padded (lit ''padded.pdf'') = Inr (lit ''Invoice 42'')
   \<and> pdfplumber_open env_padded (lit ''padded.pdf'') = Inr (map Inr [Some (lit '' Invoice 42'')])
   \<and> extract_with_pdfplumber env_padded (lit ''padded.pdf'') = Inr (lit ''Invoice 42'')
   \<and> rstrip (join [10, 10] [lit '' Invoice 42'']) = lit '' Invoice 42''
   \<and> lit ''Invoice 42'' \<noteq> lit '' Invoice 42''
   \<and> pdfplumber_open env_padded (lit ''gaps.pdf'')
       = Inr (map Inr [Some (lit ''a''), Some [], Some (lit ''b'')])
   \<and> extract_with_pdfplumber env_padded (lit ''gaps.pdf'') = Inr (lit ''a'' @ [10, 10] @ lit ''b'')
   \<and> rstrip (join [10, 10] [lit ''a'', [], lit ''b''])
       = lit ''a'' @ [10, 10, 10, 10] @ lit ''b''
   \<and> lit ''a'' @ [10, 10] @ lit ''b'' \<noteq> lit ''a'' @ [10, 10, 10, 10] @ lit ''b''"
  by (simp add: env_padded_def extract_with_pyPDF2_def extract_with_pdfplumber_def
      try_except_def strip_def lstrip_def rstrip_def isspace_def lit_def)

text \<open>
  C8, amended. When the library does not raise, \<open>extract_with_pyPDF2\<close> returns the page
  texts joined by \<open>"\n\n"\<close> and \<open>extract_with_pdfplumber\<close> returns the non-empty page texts
  joined by \<open>"\n\n"\<close> (a page whose text is \<open>None\<close> or empty is left out), in both cases
  with the white space stripped at both ends; so a non-empty result neither begins nor
  ends with white space.
\<close>

theorem C8_joined_and_stripped:
  "(PyPDF2_PdfReader E p = Inr (map Inr ts)
      \<longrightarrow> extract_with_pyPDF2 E p = Inr (strip (join [10, 10] ts)))
   \<and> (pdfplumber_open E p = Inr (map Inr os)
      \<longrightarrow> extract_with_pdfplumber E p = Inr (strip (join [10, 10] [t. Some t \<leftarrow> os, t \<noteq> []])))
   \<and> (PyPDF2_PdfReader E p = Inr (map Inr ts) \<and> extract_with_pyPDF2 E p = Inr s \<and> s \<noteq> []
      \<longrightarrow> \<not> isspace (hd s) \<and> \<not> isspace (last s))
   \<and> (pdfplumber_open E p = Inr (map Inr os) \<and> extract_with_pdfplumber E p = Inr s' \<and> s' \<noteq> []
      \<longrightarrow> \<not> isspace (hd s') \<and> \<not> isspace (last s'))"
proof -
  have nl: "\<forall>c\<in>set [10, 10]. isspace c"
    by (simp add: isspace_def)
  have a: "extract_with_pyPDF2 E p = Inr (strip (join [10, 10] ts))"
    if "PyPDF2_PdfReader E p = Inr (map Inr ts)"
    using that by (simp add: pyPDF2_cases(3) strip_concat_join [OF nl])
  have b: "extract_with_pdfplumber E p = Inr (strip (join [10, 10] [t. Some t \<leftarrow> os, t \<noteq> []]))"
    if "pdfplumber_open E p = Inr (map Inr os)"
    using that by (simp only: pdfplumber_cases(3) strip_concat_join [OF nl])
  have c: "\<not> isspace (hd s) \<and> \<not> isspace (last s)"
    if "PyPDF2_PdfReader E p = Inr (map Inr ts) \<and> extract_with_pyPDF2 E p = Inr s \<and> s \<noteq> []"
  proof -
    from that a have "s = strip (join [10, 10] ts)"
      by simp
    with that strip_ends [of "join [10, 10] ts"] show ?thesis
      by simp
  qed
  have d: "\<not> isspace (hd s') \<and> \<not> isspace (last s')"
    if "pdfplumber_open E p = Inr (map Inr os) \<and> extract_with_pdfplumber E p = Inr s' \<and> s' \<noteq> []"
  proof -
    from that b have "s' = strip (join [10, 10] [t. Some t \<leftarrow> os, t \<noteq> []])"
      by simp
    with that strip_ends [of "join [10, 10] [t. Some t \<leftarrow> os, t \<noteq> []]"] show ?thesis
      by simp
  qed
  from a b c d show ?thesis
    by blast
qed

theorem C8_joined_and_stripped_witness:
  "extract_with_pyPDF2 env_padded (lit ''padded.pdf'') = Inr (lit ''Invoice 42'')
   \<and> extract_with_pdfplumber env_padded (lit ''gaps.pdf'') = Inr (lit ''a'' @ [10, 10] @ lit ''b'')
   \<and> \<not> isspace (hd (lit ''Invoice 42'')) \<and> \<not> isspace (last (lit ''Invoice 42''))
   \<and> \<not> isspace (hd (lit ''a'' @ [10, 10] @ lit ''b''))
   \<and> \<not> isspace (last (lit ''a'' @ [10, 10] @ lit ''b''))"
proof -
  have a: "PyPDF2_PdfReader env_padded (lit ''padded.pdf'') = Inr (map Inr [lit '' Invoice 42''])"
    by (simp add: env_padded_def)
  have b: "pdfplumber_open env_padded (lit ''gaps.pdf'')
       = Inr (map Inr [Some (lit ''a''), Some [], Some (lit ''b'')])"
    by (simp add: env_padded_def lit_def)
  have c: "strip (join [10, 10] [lit '' Invoice 42'']) = lit ''Invoice 42''"
    by (simp add: strip_def lstrip_def rstrip_def isspace_def lit_def)
  have d: "strip (join [10, 10] [t. Some t \<leftarrow> [Some (lit ''a''), Some [], Some (lit ''b'')], t \<noteq> []])
      = lit ''a'' @ [10, 10] @ lit ''b''"
    by (simp add: strip_def lstrip_def rstrip_def isspace_def lit_def)
  have e: "lit ''Invoice 42'' \<noteq> []" "lit ''a'' @ [10, 10] @ lit ''b'' \<noteq> []"
    by (simp_all add: lit_def)
  from C8_joined_and_stripped [of env_padded "lit ''padded.pdf''" "[lit '' Invoice 42'']"
      "[]" "lit ''Invoice 42''" "[]"] a
    C8_joined_and_stripped [of env_padded "lit ''gaps.pdf''" "[]"
      "[Some (lit ''a''), Some [], Some (lit ''b'')]" "[]" "lit ''a'' @ [10, 10] @ lit ''b''"] b
  show ?thesis
    unfolding c d using e by blast
qed

text \<open>
  C9. When pdfplumber fails, at the opening of the document or at one of its pages, and
  the error string \<open>PDFPlumber Error: ...\<close> has at least 100 characters, the program
  prints success with the error string as \<open>text\<close> and \<open>methods_used = ["pdfplumber"]\<close>,
  and calls no other extraction function.
\<close>

theorem C9_long_error_taken_as_text:
  assumes "length argv = 2" and "path_exists E (argv ! 1) = Inr True"
    and "pdfplumber_open E (argv ! 1) = Inl e
       \<or> (\<exists>os rest. pdfplumber_open E (argv ! 1) = Inr (map Inr os @ Inl e # rest))"
    and "100 \<le> length (lit ''PDFPlumber Error: '' @ str_exn e)"
  shows "main E argv =
     \<lparr>stdout =
        [JObject
           [(lit ''success'', JBool True),
            (lit ''text'', JString (lit ''PDFPlumber Error: '' @ str_exn e)),
            (lit ''length'', JInt (int (length (lit ''PDFPlumber Error: '' @ str_exn e)))),
            (lit ''methods_used'', JArray [JString (lit ''pdfplumber'')])]],
      exit_status = 0, traceback = None, invoked = [Pdfplumber]\<rparr>"
proof -
  from assms(3)
  have "extract_with_pdfplumber E (argv ! 1) = Inr (lit ''PDFPlumber Error: '' @ str_exn e)"
    by (auto simp: pdfplumber_cases(1,2))
  from main_long [OF assms(1,2) this assms(4)] show ?thesis .
qed

theorem C9_long_error_taken_as_text_witness:
  "main env_directory [prog, scans_dir] =
     \<lparr>stdout =
        [JObject
           [(lit ''success'', JBool True),
            (lit ''text'',
             JString (lit ''PDFPlumber Error: [Errno 21] Is a directory: '' @ [39] @ scans_dir @ [39])),
            (lit ''length'', JInt 113),
            (lit ''methods_used'', JArray [JString (lit ''pdfplumber'')])]],
      exit_status = 0, traceback = None, invoked = [Pdfplumber]\<rparr>"
proof -
  let ?e = "Exception (lit ''[Errno 21] Is a directory: '' @ [39] @ scans_dir @ [39])"
  have a: "length [prog, scans_dir] = 2"
    by simp
  have b: "path_exists env_directory ([prog, scans_dir] ! 1) = Inr True"
    by (simp add: env_directory_def)
  have c: "pdfplumber_open env_directory ([prog, scans_dir] ! 1) = Inl ?e
       \<or> (\<exists>os rest. pdfplumber_open env_directory ([prog, scans_dir] ! 1)
             = Inr (map Inr os @ Inl ?e # rest))"
    by (simp add: env_directory_def)
  have d: "100 \<le> length (lit ''PDFPlumber Error: '' @ str_exn ?e)"
    by (simp add: lit_def scans_dir_def)
  have l: "int (length (lit ''PDFPlumber Error: [Errno 21] Is a directory: ''
      @ [39] @ scans_dir @ [39])) = 113"
    by (simp add: lit_def scans_dir_def)
  have t: "lit ''PDFPlumber Error: '' @ str_exn ?e
      = lit ''PDFPlumber Error: [Errno 21] Is a directory: '' @ [39] @ scans_dir @ [39]"
    by (simp add: lit_def)
  from C9_long_error_taken_as_text [OF a b c d] show ?thesis
    unfolding t l .
qed

text \<open>
  C10. \<open>extract_with_pikepdf\<close> never returns the empty string. When the library does not
  raise, the result is one line \<open>Page n - Content available\<close> for each page with
  content, \<open>n\<close> being the page's number counted from 1, the lines separated by a newline,
  or the fixed string when no page has content; when the library raises, the result is
  \<open>PikePDF Error: \<close> followed by the message. These cases cover every outcome of the
  library.
\<close>

theorem C10_pikepdf_never_empty:
  "extract_with_pikepdf E p \<noteq> Inr []
   \<and> (\<exists>s. extract_with_pikepdf E p = Inr s)
   \<and> (pikepdf_open E p = Inr (map Inr hs) \<and> True \<in> set hs
      \<longrightarrow> extract_with_pikepdf E p = Inr (join [10] (page_lines 0 hs)))
   \<and> (pikepdf_open E p = Inr (map Inr hs) \<and> True \<notin> set hs
      \<longrightarrow> extract_with_pikepdf E p = Inr (lit ''No extractable text found with pikepdf''))
   \<and> (pikepdf_open E p = Inl e
        \<or> (\<exists>hs' rest. pikepdf_open E p = Inr (map Inr hs' @ Inl e # rest))
      \<longrightarrow> extract_with_pikepdf E p = Inr (lit ''PikePDF Error: '' @ str_exn e))
   \<and> ((\<exists>hs'. pikepdf_open E p = Inr (map Inr hs'))
        \<or> (\<exists>e'. pikepdf_open E p = Inl e'
              \<or> (\<exists>hs' rest. pikepdf_open E p = Inr (map Inr hs' @ Inl e' # rest))))"
proof (intro conjI impI)
  show "extract_with_pikepdf E p \<noteq> Inr []"
    by (rule extract_with_pikepdf_nonempty)
  show "\<exists>s. extract_with_pikepdf E p = Inr s"
    by (rule extract_with_pikepdf_returns)
  show "extract_with_pikepdf E p = Inr (join [10] (page_lines 0 hs))"
    if "pikepdf_open E p = Inr (map Inr hs) \<and> True \<in> set hs"
    using that by (simp add: pikepdf_cases(3))
  show "extract_with_pikepdf E p = Inr (lit ''No extractable text found with pikepdf'')"
    if "pikepdf_open E p = Inr (map Inr hs) \<and> True \<notin> set hs"
    using that by (simp add: pikepdf_cases(4))
  show "extract_with_pikepdf E p = Inr (lit ''PikePDF Error: '' @ str_exn e)"
    if "pikepdf_open E p = Inl e
        \<or> (\<exists>hs' rest. pikepdf_open E p = Inr (map Inr hs' @ Inl e # rest))"
    using that by (auto simp: pikepdf_cases(1,2))
  show "(\<exists>hs'. pikepdf_open E p = Inr (map Inr hs'))
        \<or> (\<exists>e'. pikepdf_open E p = Inl e'
              \<or> (\<exists>hs' rest. pikepdf_open E p = Inr (map Inr hs' @ Inl e' # rest)))"
  proof (cases "pikepdf_open E p")
    case (Inl e')
    then show ?thesis
      by blast
  next
    case (Inr pages)
    with all_ok_or_first_raise [of pages] show ?thesis
      by auto
  qed
qed

theorem C10_pikepdf_never_empty_witness:
  "extract_with_pikepdf env_scans (lit ''scan.pdf'')
     = Inr (lit ''Page 1 - Content available'' @ [10] @ lit ''Page 3 - Content available'')
   \<and> extract_with_pikepdf env_scans (lit ''blank.pdf'')
     = Inr (lit ''No extractable text found with pikepdf'')
   \<and> extract_with_pikepdf env_scans (lit ''torn.pdf'')
     = Inr (lit ''PikePDF Error: unable to find trailer dictionary'')"
proof -
  let ?e = "Exception (lit ''unable to find trailer dictionary'')"
  have a: "pikepdf_open env_scans (lit ''scan.pdf'') = Inr (map Inr [True, False, True])
      \<and> True \<in> set [True, False, True]"
    by (simp add: env_scans_def)
  have b: "pikepdf_open env_scans (lit ''blank.pdf'') = Inr (map Inr [False])
      \<and> True \<notin> set [False]"
    by (simp add: env_scans_def lit_def)
  have c: "pikepdf_open env_scans (lit ''torn.pdf'') = Inl ?e"
    by (simp add: env_scans_def lit_def)
  have d: "join [10] (page_lines 0 [True, False, True])
      = lit ''Page 1 - Content available'' @ [10] @ lit ''Page 3 - Content available''"
    by (simp add: page_lines_def page_line_def str_nat.simps lit_def)
  have e: "lit ''PikePDF Error: '' @ str_exn ?e
      = lit ''PikePDF Error: unable to find trailer dictionary''"
    by (simp add: lit_def)
  from C10_pikepdf_never_empty [of env_scans "lit ''scan.pdf''" "[True, False, True]" ?e] a
    C10_pikepdf_never_empty [of env_scans "lit ''blank.pdf''" "[False]" ?e] b
    C10_pikepdf_never_empty [of env_scans "lit ''torn.pdf''" "[]" ?e] c
  show ?thesis
    unfolding d e by blast
qed

end
